theory Spec2Isabelle
  imports Main "HOL-Library.Finite_Map" "HOL-Library.Sublist"
begin

section \<open>Resource descriptors\<close>

text \<open>
  Both scripts work on the value that \<^verbatim>\<open>yaml.safe_load\<close> (or \<^verbatim>\<open>json.loads\<close>) returns:
  a tree of scalars, sequences and mappings with string keys. A Python \<^verbatim>\<open>dict\<close> compares
  equal regardless of key order, so a mapping is a finite map. Strings are sequences of
  code points below 256. Floats are left out, and the tree has no shared nodes (the output
  of \<^verbatim>\<open>kubectl get -o yaml\<close> uses no anchors), so a mutation through one name of a node
  is an update at that node's path.
\<close>

datatype yval =
    YNull
  | YBool bool
  | YInt int
  | YStr string
  | YList "yval list"
  | YDict "(string, yval) fmap"

datatype py_error =
    KeyError
  | TypeError
  | ValueError
  | IndexError
  | AttributeError

text \<open>Sequencing of steps that may raise: the first exception ends the computation.\<close>

definition rbind :: "py_error + 'a \<Rightarrow> ('a \<Rightarrow> py_error + 'b) \<Rightarrow> py_error + 'b" where
  "rbind r f = (case r of Inl e \<Rightarrow> Inl e | Inr x \<Rightarrow> f x)"

subsection \<open>The Python operations the scripts use\<close>

text \<open>\<^verbatim>\<open>bool(v)\<close>, as used by \<^verbatim>\<open>if not v\<close>.\<close>

fun truthy :: "yval \<Rightarrow> bool" where
  "truthy YNull = False"
| "truthy (YBool b) = b"
| "truthy (YInt n) = (n \<noteq> 0)"
| "truthy (YStr s) = (s \<noteq> [])"
| "truthy (YList xs) = (xs \<noteq> [])"
| "truthy (YDict d) = (d \<noteq> fmempty)"

text \<open>\<^verbatim>\<open>v[k]\<close> with a string key: only a mapping accepts it.\<close>

fun getitem :: "yval \<Rightarrow> string \<Rightarrow> py_error + yval" where
  "getitem (YDict d) k = (case fmlookup d k of None \<Rightarrow> Inl KeyError | Some v \<Rightarrow> Inr v)"
| "getitem _ k = Inl TypeError"

text \<open>\<^verbatim>\<open>v[0]\<close>: the keys of a mapping are strings, so \<^verbatim>\<open>0\<close> is never one of them.\<close>

fun getindex0 :: "yval \<Rightarrow> py_error + yval" where
  "getindex0 (YList []) = Inl IndexError"
| "getindex0 (YList (x # xs)) = Inr x"
| "getindex0 (YStr []) = Inl IndexError"
| "getindex0 (YStr (c # cs)) = Inr (YStr [c])"
| "getindex0 (YDict d) = Inl KeyError"
| "getindex0 _ = Inl TypeError"

text \<open>\<^verbatim>\<open>s in v\<close> for a string \<^verbatim>\<open>s\<close>: substring, element or key, by the type of \<^verbatim>\<open>v\<close>.\<close>

fun contains :: "string \<Rightarrow> yval \<Rightarrow> py_error + bool" where
  "contains s (YStr t) = Inr (sublist s t)"
| "contains s (YList xs) = Inr (YStr s \<in> set xs)"
| "contains s (YDict d) = Inr (fmlookup d s \<noteq> None)"
| "contains s _ = Inl TypeError"

text \<open>\<^verbatim>\<open>v.pop(k, None)\<close>, returning the receiver after the call.\<close>

fun pop :: "string \<Rightarrow> yval \<Rightarrow> py_error + yval" where
  "pop k (YDict d) = Inr (YDict (fmdrop k d))"
| "pop k (YList xs) = Inl TypeError"
| "pop k _ = Inl AttributeError"

text \<open>\<^verbatim>\<open>v.pop(k)\<close>: the key has to be there.\<close>

fun pop1 :: "string \<Rightarrow> yval \<Rightarrow> py_error + yval" where
  "pop1 k (YDict d) = (if fmlookup d k = None then Inl KeyError else Inr (YDict (fmdrop k d)))"
| "pop1 k (YList xs) = Inl TypeError"
| "pop1 k _ = Inl AttributeError"

text \<open>\<^verbatim>\<open>v[k] = x\<close> on a mapping.\<close>

fun setitem :: "yval \<Rightarrow> string \<Rightarrow> yval \<Rightarrow> py_error + yval" where
  "setitem (YDict d) k x = Inr (YDict (fmupd k x d))"
| "setitem _ k x = Inl TypeError"

text \<open>
  \<^verbatim>\<open>x = v[k]\<close> followed by in-place changes of \<^verbatim>\<open>x\<close>: afterwards \<^verbatim>\<open>v[k]\<close> is the
  changed object.
\<close>

definition modify :: "string \<Rightarrow> (yval \<Rightarrow> py_error + yval) \<Rightarrow> yval \<Rightarrow> py_error + yval" where
  "modify k f v = rbind (getitem v k) (\<lambda>x. rbind (f x) (\<lambda>x'. setitem v k x'))"

text \<open>
  \<^verbatim>\<open>x = v[0]\<close> followed by in-place changes of \<^verbatim>\<open>x\<close>. Indexing a string yields a
  fresh one-character string, which nothing can change in place.
\<close>

definition modify0 :: "(yval \<Rightarrow> py_error + yval) \<Rightarrow> yval \<Rightarrow> py_error + yval" where
  "modify0 f v = rbind (getindex0 v) (\<lambda>x. rbind (f x) (\<lambda>x'.
     case v of YList (y # ys) \<Rightarrow> Inr (YList (x' # ys)) | _ \<Rightarrow> Inr v))"

text \<open>
  \<^verbatim>\<open>if k in v: ...\<close> where the body changes \<^verbatim>\<open>v\<close> in place: the body runs only when
  the test holds, and the test itself raises on a value that has no membership.
\<close>

definition when_in :: "string \<Rightarrow> (yval \<Rightarrow> py_error + yval) \<Rightarrow> yval \<Rightarrow> py_error + yval" where
  "when_in k body v = rbind (contains k v) (\<lambda>present. if present then body v else Inr v)"

text \<open>\<^verbatim>\<open>str.isspace\<close> on one code point below 256.\<close>

definition isspace :: "char \<Rightarrow> bool" where
  "isspace c = (let n = (of_char c :: nat) in
     (9 \<le> n \<and> n \<le> 13) \<or> (28 \<le> n \<and> n \<le> 32) \<or> n = 133 \<or> n = 160)"

text \<open>\<^verbatim>\<open>s.split()\<close>: the maximal runs of non-whitespace characters.\<close>

fun split_acc :: "string \<Rightarrow> string \<Rightarrow> string list" where
  "split_acc cur [] = (if cur = [] then [] else [cur])"
| "split_acc cur (c # cs) =
     (if isspace c then (if cur = [] then split_acc [] cs else cur # split_acc [] cs)
      else split_acc (cur @ [c]) cs)"

definition split_ws :: "string \<Rightarrow> string list" where
  "split_ws s = split_acc [] s"

text \<open>\<^verbatim>\<open>s.split(c)\<close> for a one-character separator.\<close>

fun split_on :: "char \<Rightarrow> string \<Rightarrow> string list" where
  "split_on c [] = [[]]"
| "split_on c (x # xs) =
     (if x = c then [] # split_on c xs
      else (case split_on c xs of [] \<Rightarrow> [[x]] | p # ps \<Rightarrow> (x # p) # ps))"

section \<open>rerun\_job.py\<close>

subsection \<open>update\_job\_manifest\<close>

text \<open>
  \<^verbatim>\<open>f"{v}"\<close>: a string is inserted as it is, any other value by its \<^verbatim>\<open>repr\<close>. The
  \<^verbatim>\<open>repr\<close> of a mapping lists the keys in their order of insertion, which a finite map
  does not keep, so the text Python gives for a value that is no string is the
  parameter \<open>render\<close>.
\<close>

definition py_format :: "(yval \<Rightarrow> string) \<Rightarrow> yval \<Rightarrow> string" where
  "py_format render v = (case v of YStr s \<Rightarrow> s | _ \<Rightarrow> render v)"

text \<open>
  Lines 67 to 74: the image of the container. \<^verbatim>\<open>':' in current_image\<close> raises for a
  scalar that is no string; a sequence or mapping passes the test, has no \<^verbatim>\<open>split\<close>
  when it holds \<^verbatim>\<open>':'\<close>, and is formatted into the new image when it does not.
\<close>

definition set_image_latest :: "(yval \<Rightarrow> string) \<Rightarrow> yval \<Rightarrow> py_error + yval" where
  "set_image_latest render container =
     rbind (getitem container ''image'') (\<lambda>current_image.
     rbind (contains '':'' current_image) (\<lambda>has_colon.
       if has_colon then
         (case current_image of
            YStr s \<Rightarrow>
              (case split_on CHR '':'' s of
                 [] \<Rightarrow> Inl IndexError
               | base_image # _ \<Rightarrow> setitem container ''image'' (YStr (base_image @ '':latest'')))
          | _ \<Rightarrow> Inl AttributeError)
       else
         setitem container ''image'' (YStr (py_format render current_image @ '':latest''))))"

text \<open>
  Lines 82 to 85: the search for the entry, giving its position. Every entry before
  the match is subscripted with \<^verbatim>\<open>'name'\<close> too. Iterating a mapping or a string yields
  strings, and subscripting the first of them raises.
\<close>

fun find_env :: "string \<Rightarrow> yval list \<Rightarrow> py_error + nat option" where
  "find_env n [] = Inr None"
| "find_env n (e # es) =
     rbind (getitem e ''name'') (\<lambda>nm.
       if nm = YStr n then Inr (Some 0)
       else rbind (find_env n es) (\<lambda>r. Inr (map_option Suc r)))"

fun find_env_var :: "string \<Rightarrow> yval \<Rightarrow> py_error + nat option" where
  "find_env_var n (YList es) = find_env n es"
| "find_env_var n (YDict d) = (if d = fmempty then Inr None else Inl TypeError)"
| "find_env_var n (YStr s) = (if s = [] then Inr None else Inl TypeError)"
| "find_env_var n _ = Inl TypeError"

text \<open>Lines 88 to 100: the entry that was found gets its new value.\<close>

definition update_env_value :: "string \<Rightarrow> yval \<Rightarrow> py_error + yval" where
  "update_env_value env_var_value target_env_var =
     rbind (getitem target_env_var ''value'') (\<lambda>current_value.
     rbind (contains '' '' current_value) (\<lambda>has_space.
       if has_space then
         (case current_value of
            YStr s \<Rightarrow>
              (if env_var_value \<notin> set (split_ws s)
               then setitem target_env_var ''value'' (YStr (s @ '' '' @ env_var_value))
               else Inr target_env_var)
          | _ \<Rightarrow> Inl AttributeError)
       else setitem target_env_var ''value'' (YStr env_var_value)))"

text \<open>\<^verbatim>\<open>container['env'].append(new_env_var)\<close> of line 104.\<close>

definition append_env :: "string \<Rightarrow> string \<Rightarrow> yval \<Rightarrow> py_error + yval" where
  "append_env env_var_name env_var_value container =
     modify ''env'' (\<lambda>env.
       case env of
         YList es \<Rightarrow> Inr (YList (es @ [YDict (fmap_of_list
                       [(''name'', YStr env_var_name), (''value'', YStr env_var_value)])]))
       | _ \<Rightarrow> Inl AttributeError) container"

text \<open>
  Lines 78 to 105. \<^verbatim>\<open>container.get('env', [])\<close> is the sequence searched; the entry
  found is an element of \<^verbatim>\<open>container['env']\<close> and is changed in place.
\<close>

definition upsert_env :: "string \<Rightarrow> string \<Rightarrow> yval \<Rightarrow> py_error + yval" where
  "upsert_env env_var_name env_var_value container =
     (case container of
        YDict d \<Rightarrow>
          (let env_vars = (case fmlookup d ''env'' of None \<Rightarrow> YList [] | Some v \<Rightarrow> v) in
           rbind (find_env_var env_var_name env_vars) (\<lambda>found.
             case (found, env_vars) of
               (Some i, YList es) \<Rightarrow>
                 (if truthy (es ! i) then
                    rbind (update_env_value env_var_value (es ! i)) (\<lambda>e'.
                      setitem container ''env'' (YList (es[i := e'])))
                  else append_env env_var_name env_var_value container)
             | _ \<Rightarrow> append_env env_var_name env_var_value container))
      | _ \<Rightarrow> Inl AttributeError)"

text \<open>Lines 60 to 105: the container is the first element of the sequence at
  \<^verbatim>\<open>spec.template.spec.containers\<close>.\<close>

definition opt_truthy :: "string option \<Rightarrow> bool" where
  "opt_truthy a = (case a of None \<Rightarrow> False | Some s \<Rightarrow> s \<noteq> [])"

definition mutate_container :: "(yval \<Rightarrow> string) \<Rightarrow> string option \<Rightarrow> string option \<Rightarrow> yval \<Rightarrow> py_error + yval" where
  "mutate_container render env_var_name env_var_value container =
     rbind (set_image_latest render container) (\<lambda>container'.
       if opt_truthy env_var_name \<and> opt_truthy env_var_value
       then upsert_env (the env_var_name) (the env_var_value) container'
       else Inr container')"

definition mutate_job :: "(yval \<Rightarrow> string) \<Rightarrow> string option \<Rightarrow> string option \<Rightarrow> yval \<Rightarrow> py_error + yval" where
  "mutate_job render env_var_name env_var_value manifest =
     modify ''spec'' (modify ''template'' (modify ''spec'' (modify ''containers''
       (\<lambda>containers.
          if \<not> truthy containers then Inl ValueError
          else modify0 (mutate_container render env_var_name env_var_value) containers))))
       manifest"

text \<open>Lines 108 to 129: the clean-up for recreation.\<close>

definition clean_job_metadata :: "yval \<Rightarrow> py_error + yval" where
  "clean_job_metadata metadata =
     rbind (pop ''creationTimestamp'' metadata) (\<lambda>m1.
     rbind (pop ''resourceVersion'' m1) (\<lambda>m2.
     rbind (pop ''uid'' m2) (\<lambda>m3.
     rbind (pop ''generation'' m3) (\<lambda>m4.
     pop ''labels'' m4))))"

definition clean_job_annotations :: "yval \<Rightarrow> py_error + yval" where
  "clean_job_annotations metadata =
     when_in ''annotations''
       (modify ''annotations'' (pop ''kubectl.kubernetes.io/last-applied-configuration''))
       metadata"

definition clean_job :: "yval \<Rightarrow> py_error + yval" where
  "clean_job manifest =
     rbind (when_in ''metadata'' (\<lambda>manifest.
              rbind (modify ''metadata'' clean_job_metadata manifest) (\<lambda>m1.
              rbind (modify ''spec'' (modify ''template'' (modify ''metadata''
                       (pop ''labels''))) m1) (\<lambda>m2.
              rbind (modify ''spec'' (pop ''selector'') m2) (\<lambda>m3.
              modify ''metadata'' clean_job_annotations m3)))) manifest) (\<lambda>m4.
     rbind (pop ''status'' m4) (\<lambda>m5.
     rbind (pop ''matchLabels'' m5) (\<lambda>m6.
     pop ''selector'' m6)))"

definition update_job_manifest :: "(yval \<Rightarrow> string) \<Rightarrow> yval \<Rightarrow> string option \<Rightarrow> string option \<Rightarrow> py_error + yval" where
  "update_job_manifest render manifest env_var_name env_var_value =
     rbind (mutate_job render env_var_name env_var_value manifest) clean_job"

subsection \<open>check\_job\_status\<close>

text \<open>\<^verbatim>\<open>v.get(k, default)\<close>.\<close>

fun py_get :: "yval \<Rightarrow> string \<Rightarrow> yval \<Rightarrow> py_error + yval" where
  "py_get (YDict d) k dflt = Inr (case fmlookup d k of None \<Rightarrow> dflt | Some v \<Rightarrow> v)"
| "py_get _ k dflt = Inl AttributeError"

text \<open>\<^verbatim>\<open>v > 0\<close>: defined for numbers only.\<close>

fun gt_zero :: "yval \<Rightarrow> py_error + bool" where
  "gt_zero (YInt n) = Inr (0 < n)"
| "gt_zero (YBool b) = Inr b"
| "gt_zero _ = Inl TypeError"

datatype verdict = Succeeded | HasFailed | Running

text \<open>Lines 173 to 185: what one status read means.\<close>

definition classify :: "yval \<Rightarrow> py_error + verdict" where
  "classify job_status =
     rbind (py_get job_status ''status'' (YDict fmempty)) (\<lambda>status.
     rbind (py_get status ''succeeded'' (YInt 0)) (\<lambda>completions.
     rbind (py_get status ''failed'' (YInt 0)) (\<lambda>failed.
     rbind (py_get status ''active'' (YInt 0)) (\<lambda>active.
     rbind (gt_zero completions) (\<lambda>done.
       if done then Inr Succeeded
       else rbind (gt_zero failed) (\<lambda>bad. Inr (if bad then HasFailed else Running)))))))"

datatype poll_outcome =
    Completed
  | Failed
  | Inconclusive
  | KubectlExit
  | Raised py_error

text \<open>
  Lines 169 to 189. Time is counted in microseconds from \<^verbatim>\<open>start_time\<close>, and
  \<open>elapsed\<close> is what \<^verbatim>\<open>time.time() - start_time\<close> gives when the loop condition is
  tested. Between two tests the program reads the status, prints and sleeps: the sleep
  takes ten seconds, and \<open>delay i\<close> is the time that everything else in the \<open>i\<close>-th
  round takes, as the cluster and the machine make it. The \<open>i\<close>-th read of the cluster
  answers \<open>reads i\<close>, \<open>None\<close> when \<^verbatim>\<open>kubectl\<close> fails (then \<^verbatim>\<open>run_kubectl_command\<close>
  exits). The result carries the number of reads made.
\<close>

function poll :: "(nat \<Rightarrow> yval option) \<Rightarrow> (nat \<Rightarrow> nat) \<Rightarrow> int \<Rightarrow> nat \<Rightarrow> nat \<Rightarrow> poll_outcome \<times> nat" where
  "poll reads delay timeout_us elapsed i =
     (if int elapsed < timeout_us then
        (case reads i of
           None \<Rightarrow> (KubectlExit, Suc i)
         | Some job_status \<Rightarrow>
             (case classify job_status of
                Inl e \<Rightarrow> (Raised e, Suc i)
              | Inr Succeeded \<Rightarrow> (Completed, Suc i)
              | Inr HasFailed \<Rightarrow> (Failed, Suc i)
              | Inr Running \<Rightarrow>
                  poll reads delay timeout_us (elapsed + delay i + 10000000) (Suc i)))
      else (Inconclusive, i))"
  by pat_completeness auto
termination
  by (relation "measure (\<lambda>(reads, delay, timeout_us, elapsed, i). nat (timeout_us - int elapsed))")
    auto

declare poll.simps [simp del]

text \<open>Lines 166 and 167: the timeout is given in minutes.\<close>

definition check_job_status :: "(nat \<Rightarrow> yval option) \<Rightarrow> (nat \<Rightarrow> nat) \<Rightarrow> int \<Rightarrow> poll_outcome \<times> nat" where
  "check_job_status reads delay timeout_minutes =
     poll reads delay (timeout_minutes * 60 * 1000000) 0 0"

subsection \<open>main\<close>

text \<open>
  The cluster is what it answers: the manifest of a successful \<^verbatim>\<open>kubectl get\<close>
  (\<open>None\<close> when the command fails), whether delete and apply succeed, and the status
  reads with the time each round of the monitoring takes. A run is the \<^verbatim>\<open>kubectl\<close> commands issued, in order, the exit status of the
  process and the manifest printed by a dry run.
\<close>

datatype kubectl_call =
    KGet string string string
  | KDelete string string string bool
  | KApply yval string
  | KGetPods string string
  | KGetStatus string string

record run =
  calls :: "kubectl_call list"
  exit_code :: nat
  shown :: "yval option"

record job_args =
  job_name :: string
  namespace :: string
  env_var_name :: "string option"
  env_var_value :: "string option"
  monitor :: bool
  timeout :: int
  dry_run :: bool

record job_cluster =
  get_reply :: "yval option"
  delete_ok :: bool
  apply_ok :: bool
  status_reads :: "nat \<Rightarrow> yval option"
  status_delays :: "nat \<Rightarrow> nat"

definition rerun_job_main :: "(yval \<Rightarrow> string) \<Rightarrow> job_args \<Rightarrow> job_cluster \<Rightarrow> run" where
  "rerun_job_main render args cluster =
     (let get = KGet ''job'' (job_name args) (namespace args);
          del = KDelete ''job'' (job_name args) (namespace args) True in
      if opt_truthy (env_var_name args) \<and> \<not> opt_truthy (env_var_value args) then
        \<lparr>calls = [], exit_code = 1, shown = None\<rparr>
      else if opt_truthy (env_var_value args) \<and> \<not> opt_truthy (env_var_name args) then
        \<lparr>calls = [], exit_code = 1, shown = None\<rparr>
      else
        (case get_reply cluster of
           None \<Rightarrow> \<lparr>calls = [get], exit_code = 1, shown = None\<rparr>
         | Some manifest \<Rightarrow>
             (case update_job_manifest render manifest (env_var_name args) (env_var_value args) of
                Inl e \<Rightarrow> \<lparr>calls = [get], exit_code = 1, shown = None\<rparr>
              | Inr updated_manifest \<Rightarrow>
                  if dry_run args then
                    \<lparr>calls = [get], exit_code = 0, shown = Some updated_manifest\<rparr>
                  else if \<not> delete_ok cluster then
                    \<lparr>calls = [get, del], exit_code = 1, shown = None\<rparr>
                  else
                    (let apply = KApply updated_manifest (namespace args) in
                     if \<not> apply_ok cluster then
                       \<lparr>calls = [get, del, apply], exit_code = 1, shown = None\<rparr>
                     else if monitor args then
                       (case check_job_status (status_reads cluster) (status_delays cluster)
                               (timeout args) of
                          (outcome, n) \<Rightarrow>
                            \<lparr>calls = [get, del, apply] @
                                replicate n (KGetStatus (job_name args) (namespace args)),
                             exit_code = (case outcome of
                                            KubectlExit \<Rightarrow> 1 | Raised e \<Rightarrow> 1 | _ \<Rightarrow> 0),
                             shown = None\<rparr>)
                     else \<lparr>calls = [get, del, apply], exit_code = 0, shown = None\<rparr>))))"

section \<open>sts\_resizer.py\<close>

subsection \<open>clean\_manifest\<close>

text \<open>
  Lines 71 to 86, and again lines 91 to 106 on the template's metadata: the generated
  fields go, then the three annotations, then an annotations mapping left empty.
\<close>

definition clean_sts_annotations :: "yval \<Rightarrow> py_error + yval" where
  "clean_sts_annotations metadata =
     when_in ''annotations'' (\<lambda>metadata.
       rbind (getitem metadata ''annotations'') (\<lambda>annotations.
       rbind (pop ''kubectl.kubernetes.io/last-applied-configuration'' annotations) (\<lambda>a1.
       rbind (pop ''deployment.kubernetes.io/revision'' a1) (\<lambda>a2.
       rbind (pop ''kubernetes.io/change-cause'' a2) (\<lambda>a3.
         if \<not> truthy a3 then pop1 ''annotations'' metadata
         else setitem metadata ''annotations'' a3))))) metadata"

definition clean_sts_metadata :: "yval \<Rightarrow> py_error + yval" where
  "clean_sts_metadata metadata =
     rbind (pop ''creationTimestamp'' metadata) (\<lambda>m1.
     rbind (pop ''resourceVersion'' m1) (\<lambda>m2.
     rbind (pop ''uid'' m2) (\<lambda>m3.
     rbind (pop ''generation'' m3) (\<lambda>m4.
     rbind (pop ''managedFields'' m4) clean_sts_annotations))))"

text \<open>
  Lines 89 to 106. \<^verbatim>\<open>.get('metadata', {})\<close> hands out the template's own metadata, or
  a fresh empty mapping whose clean-up leaves no trace.
\<close>

definition clean_template_metadata :: "yval \<Rightarrow> py_error + yval" where
  "clean_template_metadata template =
     (case template of
        YDict d \<Rightarrow>
          (case fmlookup d ''metadata'' of
             None \<Rightarrow> rbind (clean_sts_metadata (YDict fmempty)) (\<lambda>_. Inr template)
           | Some _ \<Rightarrow> modify ''metadata'' clean_sts_metadata template)
      | _ \<Rightarrow> Inl AttributeError)"

text \<open>Lines 110 to 117.\<close>

definition clean_sts_spec :: "yval \<Rightarrow> py_error + yval" where
  "clean_sts_spec spec =
     rbind (pop ''currentReplicas'' spec) (\<lambda>s1.
     rbind (pop ''updatedReplicas'' s1) (\<lambda>s2.
     rbind (pop ''readyReplicas'' s2) (\<lambda>s3.
     rbind (pop ''availableReplicas'' s3) (\<lambda>s4.
     rbind (pop ''observedGeneration'' s4) (\<lambda>s5.
     rbind (pop ''collisionCount'' s5) (\<lambda>s6.
     pop ''conditions'' s6))))))"

text \<open>
  Lines 65 to 123. The copy made by dumping and loading the manifest at line 65 is the
  manifest itself, as a value.
\<close>

definition clean_manifest :: "yval \<Rightarrow> py_error + yval" where
  "clean_manifest manifest =
     rbind (when_in ''metadata'' (modify ''metadata'' clean_sts_metadata) manifest) (\<lambda>c1.
     rbind (when_in ''spec''
              (modify ''spec'' (when_in ''template''
                 (modify ''template'' clean_template_metadata))) c1) (\<lambda>c2.
     rbind (when_in ''spec'' (modify ''spec'' clean_sts_spec) c2) (\<lambda>c3.
     pop ''status'' c3)))"

subsection \<open>update\_persistent\_volume\_size\<close>

text \<open>A loop body run on each element in turn, stopping at the first exception.\<close>

fun for_each :: "('a \<Rightarrow> py_error + 'b) \<Rightarrow> 'a list \<Rightarrow> py_error + 'b list" where
  "for_each f [] = Inr []"
| "for_each f (x # xs) = rbind (f x) (\<lambda>y. rbind (for_each f xs) (\<lambda>ys. Inr (y # ys)))"

text \<open>Lines 138 to 143: one volume claim template.\<close>

definition resize_storage :: "string \<Rightarrow> yval \<Rightarrow> py_error + yval" where
  "resize_storage new_size requests =
     rbind (getitem requests ''storage'') (\<lambda>old_size.
     setitem requests ''storage'' (YStr new_size))"

definition resize_template :: "string \<Rightarrow> yval \<Rightarrow> py_error + yval" where
  "resize_template new_size template =
     when_in ''spec'' (modify ''spec''
       (when_in ''resources'' (modify ''resources''
          (when_in ''requests'' (modify ''requests''
             (when_in ''storage'' (resize_storage new_size))))))) template"

text \<open>
  Line 137, the loop. A sequence yields its elements. A string yields its characters,
  none of which contains \<^verbatim>\<open>'spec'\<close>. A mapping yields its keys, in an order that does
  not matter here: a key that contains \<^verbatim>\<open>'spec'\<close> is subscripted and raises, any other
  is skipped.
\<close>

fun resize_templates :: "string \<Rightarrow> yval \<Rightarrow> py_error + yval" where
  "resize_templates new_size (YList ts) =
     rbind (for_each (resize_template new_size) ts) (\<lambda>ts'. Inr (YList ts'))"
| "resize_templates new_size (YStr s) =
     rbind (for_each (resize_template new_size) (map (\<lambda>c. YStr [c]) s)) (\<lambda>_. Inr (YStr s))"
| "resize_templates new_size (YDict d) =
     (if fBex (fmdom d) (\<lambda>k. sublist ''spec'' k) then Inl TypeError else Inr (YDict d))"
| "resize_templates new_size _ = Inl TypeError"

text \<open>Lines 151 to 155: one volume of the pod template; the note names the claim.\<close>

definition scan_volume :: "yval \<Rightarrow> py_error + yval list" where
  "scan_volume volume =
     rbind (contains ''persistentVolumeClaim'' volume) (\<lambda>has_pvc.
       if has_pvc then
         rbind (getitem volume ''persistentVolumeClaim'') (\<lambda>pvc.
         rbind (contains ''claimName'' pvc) (\<lambda>has_name.
           if has_name then rbind (getitem pvc ''claimName'') (\<lambda>claim. Inr [claim])
           else Inr []))
       else Inr [])"

fun scan_volumes :: "yval \<Rightarrow> py_error + yval list" where
  "scan_volumes (YList vs) = rbind (for_each scan_volume vs) (\<lambda>ns. Inr (concat ns))"
| "scan_volumes (YStr s) =
     rbind (for_each scan_volume (map (\<lambda>c. YStr [c]) s)) (\<lambda>ns. Inr (concat ns))"
| "scan_volumes (YDict d) =
     (if fBex (fmdom d) (\<lambda>k. sublist ''persistentVolumeClaim'' k) then Inl TypeError
      else Inr [])"
| "scan_volumes _ = Inl TypeError"

text \<open>Lines 146 to 155: the notes about inline claims; the manifest is only read.\<close>

definition inline_pvc_notes :: "yval \<Rightarrow> py_error + yval list" where
  "inline_pvc_notes updated =
     rbind (contains ''spec'' updated) (\<lambda>has_spec.
       if has_spec then
         rbind (getitem updated ''spec'') (\<lambda>spec.
         rbind (contains ''template'' spec) (\<lambda>has_template.
           if has_template then
             rbind (getitem spec ''template'') (\<lambda>template.
             rbind (contains ''spec'' template) (\<lambda>has_tspec.
               if has_tspec then
                 rbind (getitem template ''spec'') (\<lambda>tspec.
                 rbind (contains ''volumes'' tspec) (\<lambda>has_volumes.
                   if has_volumes then rbind (getitem tspec ''volumes'') scan_volumes
                   else Inr []))
               else Inr []))
           else Inr []))
       else Inr [])"

text \<open>Lines 131 to 158: the result is the notes printed and the updated manifest.\<close>

definition update_persistent_volume_size :: "yval \<Rightarrow> string \<Rightarrow> py_error + (yval list \<times> yval)" where
  "update_persistent_volume_size manifest new_size =
     rbind (when_in ''spec'' (modify ''spec''
              (when_in ''volumeClaimTemplates''
                 (modify ''volumeClaimTemplates'' (resize_templates new_size)))) manifest)
       (\<lambda>updated_manifest.
     rbind (inline_pvc_notes updated_manifest) (\<lambda>notes.
     Inr (notes, updated_manifest)))"

subsection \<open>get\_current\_pods\<close>

text \<open>
  Lines 201 to 206 on the parsed answer: the names of the pods, which
  \<^verbatim>\<open>', '.join\<close> accepts only if they are strings.
\<close>

definition pod_name :: "yval \<Rightarrow> py_error + yval" where
  "pod_name pod = rbind (getitem pod ''metadata'') (\<lambda>metadata. getitem metadata ''name'')"

fun pod_items :: "yval \<Rightarrow> py_error + yval list" where
  "pod_items (YList ps) = for_each pod_name ps"
| "pod_items (YStr s) = for_each pod_name (map (\<lambda>c. YStr [c]) s)"
| "pod_items (YDict d) = (if d = fmempty then Inr [] else Inl TypeError)"
| "pod_items _ = Inl TypeError"

fun as_str :: "yval \<Rightarrow> py_error + string" where
  "as_str (YStr s) = Inr s"
| "as_str _ = Inl TypeError"

definition get_current_pods :: "yval \<Rightarrow> py_error + string list" where
  "get_current_pods pods =
     rbind (getitem pods ''items'') (\<lambda>items.
     rbind (pod_items items) (\<lambda>pod_names.
     for_each as_str pod_names))"

subsection \<open>main\<close>

text \<open>\<^verbatim>\<open>s.strip()\<close> and \<^verbatim>\<open>s.lower()\<close> on code points below 256.\<close>

definition strip :: "string \<Rightarrow> string" where
  "strip s = rev (dropWhile isspace (rev (dropWhile isspace s)))"

definition lower_char :: "char \<Rightarrow> char" where
  "lower_char c = (let n = (of_char c :: nat) in
     if (65 \<le> n \<and> n \<le> 90) \<or> (192 \<le> n \<and> n \<le> 222 \<and> n \<noteq> 215)
     then char_of (n + 32) else c)"

definition lower :: "string \<Rightarrow> string" where
  "lower s = map lower_char s"

text \<open>
  The cluster answers as for the job; \<open>backup_ok\<close> says whether the backup file can be
  written and \<open>stdin\<close> holds the lines typed at the prompts (\<^verbatim>\<open>input()\<close> raises at the
  end of input). A run also records the backup written.
\<close>

record sts_args =
  statefulset_name :: string
  sts_namespace :: string
  sts_dry_run :: bool
  new_pv_size :: "string option"

record sts_cluster =
  sts_get_reply :: "yval option"
  backup_ok :: bool
  pods_reply :: "yval option"
  stdin :: "string list"
  sts_delete_ok :: bool
  sts_apply_ok :: bool

record sts_run = run +
  backup :: "yval option"

definition sts_stop :: "kubectl_call list \<Rightarrow> nat \<Rightarrow> yval option \<Rightarrow> yval option \<Rightarrow> sts_run" where
  "sts_stop cs code out bk = \<lparr>calls = cs, exit_code = code, shown = out, backup = bk\<rparr>"

text \<open>
  Lines 240 to 245: the size from the command line, or else a line read at the prompt;
  \<open>None\<close> is the end of input, where \<^verbatim>\<open>input()\<close> raises.
\<close>

definition read_new_pv_size :: "string option \<Rightarrow> string list \<Rightarrow> (string option \<times> string list) option" where
  "read_new_pv_size given lines =
     (if opt_truthy given then Some (given, lines)
      else (case lines of
              [] \<Rightarrow> None
            | l # ls \<Rightarrow> Some (if strip l = [] then None else Some (strip l), ls)))"

text \<open>Lines 248 and 249.\<close>

definition apply_new_size :: "yval \<Rightarrow> string option \<Rightarrow> py_error + yval" where
  "apply_new_size cleaned_manifest chosen =
     (case chosen of
        None \<Rightarrow> Inr cleaned_manifest
      | Some new_size \<Rightarrow>
          rbind (update_persistent_volume_size cleaned_manifest new_size)
            (\<lambda>(notes, updated). Inr updated))"

text \<open>Lines 267 to 285: the confirmation, the delete that keeps the pods, the apply.\<close>

definition replace_statefulset :: "sts_args \<Rightarrow> sts_cluster \<Rightarrow> kubectl_call list \<Rightarrow> yval \<Rightarrow> yval \<Rightarrow> string list \<Rightarrow> sts_run" where
  "replace_statefulset args cluster issued manifest final lines =
     (let del = KDelete ''statefulset'' (statefulset_name args) (sts_namespace args) False;
          apply = KApply final (sts_namespace args) in
      case lines of
        [] \<Rightarrow> sts_stop issued 1 (Some final) (Some manifest)
      | confirm # _ \<Rightarrow>
          if lower (strip confirm) \<noteq> ''yes'' then
            sts_stop issued 0 (Some final) (Some manifest)
          else if \<not> sts_delete_ok cluster then
            sts_stop (issued @ [del]) 1 (Some final) (Some manifest)
          else if \<not> sts_apply_ok cluster then
            sts_stop (issued @ [del, apply]) 1 (Some final) (Some manifest)
          else
            sts_stop (issued @ [del, apply]) 0 (Some final) (Some manifest))"

text \<open>Lines 226 to 289.\<close>

definition sts_resizer_main :: "sts_args \<Rightarrow> sts_cluster \<Rightarrow> sts_run" where
  "sts_resizer_main args cluster =
     (let get = KGet ''statefulset'' (statefulset_name args) (sts_namespace args);
          pods = KGetPods (sts_namespace args) (''app='' @ statefulset_name args) in
      case sts_get_reply cluster of
        None \<Rightarrow> sts_stop [get] 1 None None
      | Some manifest \<Rightarrow>
          if \<not> backup_ok cluster then sts_stop [get] 1 None None
          else
            (case clean_manifest manifest of
               Inl e \<Rightarrow> sts_stop [get] 1 None (Some manifest)
             | Inr cleaned_manifest \<Rightarrow>
                 (case pods_reply cluster of
                    None \<Rightarrow> sts_stop [get, pods] 1 None (Some manifest)
                  | Some pod_list \<Rightarrow>
                      (case get_current_pods pod_list of
                         Inl e \<Rightarrow> sts_stop [get, pods] 1 None (Some manifest)
                       | Inr current_pods \<Rightarrow>
                           (case read_new_pv_size (new_pv_size args) (stdin cluster) of
                              None \<Rightarrow> sts_stop [get, pods] 1 None (Some manifest)
                            | Some (chosen, rest) \<Rightarrow>
                                (case apply_new_size cleaned_manifest chosen of
                                   Inl e \<Rightarrow> sts_stop [get, pods] 1 None (Some manifest)
                                 | Inr final \<Rightarrow>
                                     if sts_dry_run args then
                                       sts_stop [get, pods] 0 (Some final) (Some manifest)
                                     else
                                       replace_statefulset args cluster [get, pods]
                                         manifest final rest))))))"

section \<open>Paths into a descriptor\<close>

text \<open>
  The statements below address a field by its path from the root: a key of a mapping
  or a position in a sequence at each step.
\<close>

datatype seg = Key string | Idx nat

fun get_path :: "seg list \<Rightarrow> yval \<Rightarrow> yval option" where
  "get_path [] v = Some v"
| "get_path (Key k # p) (YDict d) = (case fmlookup d k of None \<Rightarrow> None | Some v \<Rightarrow> get_path p v)"
| "get_path (Idx i # p) (YList xs) = (if i < length xs then get_path p (xs ! i) else None)"
| "get_path (s # p) v = None"

section \<open>Descriptors and answers used in the statements\<close>

text \<open>The answer of \<^verbatim>\<open>kubectl get job -o json\<close> for a job with the given status counts.\<close>

definition status_doc :: "int \<Rightarrow> int \<Rightarrow> int \<Rightarrow> yval" where
  "status_doc s f a = YDict (fmupd ''status'' (YDict (fmupd ''succeeded'' (YInt s)
     (fmupd ''failed'' (YInt f) (fmupd ''active'' (YInt a) fmempty)))) fmempty)"

text \<open>
  The time from the start of the monitoring to the \<open>k\<close>-th test of the loop
  condition, in microseconds: each round before it took its own time and a sleep of
  ten seconds.
\<close>

fun check_time :: "(nat \<Rightarrow> nat) \<Rightarrow> nat \<Rightarrow> nat" where
  "check_time delay 0 = 0"
| "check_time delay (Suc k) = check_time delay k + delay k + 10000000"

text \<open>A job as the cluster returns it, with one container.\<close>

definition sample_job :: yval where
  "sample_job = YDict (fmap_of_list
     [(''metadata'', YDict (fmap_of_list
         [(''name'', YStr ''j''), (''uid'', YStr ''u1''), (''resourceVersion'', YStr ''7''),
          (''creationTimestamp'', YStr ''t0''), (''managedFields'', YList []),
          (''labels'', YDict (fmap_of_list [(''job-name'', YStr ''j'')])),
          (''annotations'', YDict (fmap_of_list
             [(''kubectl.kubernetes.io/last-applied-configuration'', YStr ''{}''),
              (''owner'', YStr ''ops'')]))])),
      (''spec'', YDict (fmap_of_list
         [(''selector'', YDict (fmap_of_list [(''matchLabels'', YDict fmempty)])),
          (''template'', YDict (fmap_of_list
             [(''metadata'', YDict (fmap_of_list
                 [(''labels'', YDict (fmap_of_list [(''job-name'', YStr ''j'')])),
                  (''creationTimestamp'', YNull)])),
              (''spec'', YDict (fmap_of_list
                 [(''containers'', YList
                    [YDict (fmap_of_list
                       [(''image'', YStr ''img:v1''),
                        (''env'', YList [YDict (fmap_of_list
                           [(''name'', YStr ''X''), (''value'', YStr ''1 2'')])])])]),
                  (''restartPolicy'', YStr ''Never'')]))]))])),
      (''status'', YDict (fmap_of_list [(''succeeded'', YInt 1)]))])"

text \<open>The job after the transformation that sets \<open>X\<close> to \<open>3\<close>.\<close>

definition sample_job_updated :: yval where
  "sample_job_updated = YDict (fmap_of_list
     [(''metadata'', YDict (fmap_of_list
         [(''name'', YStr ''j''), (''managedFields'', YList []),
          (''annotations'', YDict (fmap_of_list [(''owner'', YStr ''ops'')]))])),
      (''spec'', YDict (fmap_of_list
         [(''template'', YDict (fmap_of_list
             [(''metadata'', YDict (fmap_of_list [(''creationTimestamp'', YNull)])),
              (''spec'', YDict (fmap_of_list
                 [(''containers'', YList
                    [YDict (fmap_of_list
                       [(''image'', YStr ''img:latest''),
                        (''env'', YList [YDict (fmap_of_list
                           [(''name'', YStr ''X''), (''value'', YStr ''1 2 3'')])])])]),
                  (''restartPolicy'', YStr ''Never'')]))]))]))])"




text \<open>A stateful set whose pod template has no containers.\<close>

definition bare_statefulset :: yval where
  "bare_statefulset = YDict (fmap_of_list
     [(''metadata'', YDict (fmap_of_list [(''name'', YStr ''db'')])),
      (''spec'', YDict (fmap_of_list [(''template'', YDict (fmap_of_list
         [(''spec'', YDict (fmap_of_list [(''containers'', YList [])]))]))]))])"


text \<open>Where the containers of the pod template are.\<close>

definition containers_path :: "seg list" where
  "containers_path = [Key ''spec'', Key ''template'', Key ''spec'', Key ''containers'']"

section \<open>Notions used in the proofs\<close>

text \<open>
  One step after another, as a function; a step that changes nothing when run on its
  own result; a step that leaves alone what another step has settled; a step that
  leaves the presence of a key alone.
\<close>

definition seq :: "('a \<Rightarrow> py_error + 'b) \<Rightarrow> ('b \<Rightarrow> py_error + 'c) \<Rightarrow> 'a \<Rightarrow> py_error + 'c" where
  "seq f g = (\<lambda>x. rbind (f x) g)"

definition retract :: "(yval \<Rightarrow> py_error + yval) \<Rightarrow> bool" where
  "retract f \<longleftrightarrow> (\<forall>x y. f x = Inr y \<longrightarrow> f y = Inr y)"

definition keeps :: "(yval \<Rightarrow> py_error + yval) \<Rightarrow> (yval \<Rightarrow> py_error + yval) \<Rightarrow> bool" where
  "keeps f g \<longleftrightarrow> (\<forall>x y. f x = Inr x \<longrightarrow> g x = Inr y \<longrightarrow> f y = Inr y)"

definition keeps_key :: "string \<Rightarrow> (yval \<Rightarrow> py_error + yval) \<Rightarrow> bool" where
  "keeps_key k g \<longleftrightarrow> (\<forall>x y. g x = Inr y \<longrightarrow> contains k y = contains k x)"

named_theorems inv
named_theorems alg

text \<open>
  The paths below a first step; a path that no path of a set reaches and that reaches
  none of them; two descriptors that agree on every such path; a step that changes
  only what lies on the paths of a set; a step after which a path leads nowhere.
\<close>

definition under :: "seg \<Rightarrow> seg list set \<Rightarrow> seg list set" where
  "under s T = {p. s # p \<in> T}"

definition outside :: "seg list set \<Rightarrow> seg list \<Rightarrow> bool" where
  "outside T p \<longleftrightarrow> (\<forall>t\<in>T. \<not> prefix t p \<and> \<not> prefix p t)"

definition same_outside :: "seg list set \<Rightarrow> yval \<Rightarrow> yval \<Rightarrow> bool" where
  "same_outside T v v' \<longleftrightarrow> (\<forall>p. outside T p \<longrightarrow> get_path p v' = get_path p v)"

definition frame :: "seg list set \<Rightarrow> (yval \<Rightarrow> py_error + yval) \<Rightarrow> bool" where
  "frame T f \<longleftrightarrow> (\<forall>x y. f x = Inr y \<longrightarrow> same_outside T x y)"

definition removes :: "seg list \<Rightarrow> (yval \<Rightarrow> py_error + yval) \<Rightarrow> bool" where
  "removes p f \<longleftrightarrow> (\<forall>x y. f x = Inr y \<longrightarrow> get_path p y = None)"

named_theorems frm

text \<open>What the clean-up of a job takes away.\<close>

definition job_removed :: "seg list set" where
  "job_removed =
     {[Key ''metadata'', Key ''creationTimestamp''],
      [Key ''metadata'', Key ''resourceVersion''],
      [Key ''metadata'', Key ''uid''],
      [Key ''metadata'', Key ''generation''],
      [Key ''metadata'', Key ''labels''],
      [Key ''metadata'', Key ''annotations'',
       Key ''kubectl.kubernetes.io/last-applied-configuration''],
      [Key ''spec'', Key ''template'', Key ''metadata'', Key ''labels''],
      [Key ''spec'', Key ''selector''],
      [Key ''status''], [Key ''matchLabels''], [Key ''selector'']}"

section \<open>Finite maps\<close>

lemma fmupd_same: "fmlookup m k = Some v \<Longrightarrow> fmupd k v m = m"
  by (rule fmap_ext) auto

lemma fmdrop_absent: "fmlookup m k = None \<Longrightarrow> fmdrop k m = m"
  by (rule fmap_ext) auto

section \<open>The image tag\<close>

lemma split_on_first: "\<exists>ps. split_on c s = takeWhile (\<lambda>x. x \<noteq> c) s # ps"
  by (induction s) (auto split: list.splits)

lemma sublist_single: "sublist [c] s \<longleftrightarrow> c \<in> set s"
  by (induction s) (auto simp: sublist_Cons_right)

lemma set_image_latest_str:
  "set_image_latest render (YDict (fmupd ''image'' (YStr s) d)) =
     Inr (YDict (fmupd ''image'' (YStr (takeWhile (\<lambda>c. c \<noteq> CHR '':'') s @ '':latest'')) d))"
proof -
  obtain ps where sp: "split_on CHR '':'' s = takeWhile (\<lambda>x. x \<noteq> CHR '':'') s # ps"
    using split_on_first by blast
  show ?thesis
  proof (cases "CHR '':'' \<in> set s")
    case True
    then show ?thesis
      by (simp add: set_image_latest_def rbind_def sublist_single sp)
  next
    case False
    then have whole: "takeWhile (\<lambda>x. x \<noteq> CHR '':'') s = s"
      by (auto simp: takeWhile_eq_all_conv)
    from False show ?thesis
      by (simp add: set_image_latest_def py_format_def rbind_def sublist_single whole)
  qed
qed

lemma takeWhile_latest:
  "takeWhile (\<lambda>c. c \<noteq> CHR '':'') (takeWhile (\<lambda>c. c \<noteq> CHR '':'') s @ '':latest'') =
   takeWhile (\<lambda>c. c \<noteq> CHR '':'') s"
  by (simp add: takeWhile_append1 takeWhile_tail)

section \<open>The environment variable\<close>











lemma upsert_env_not_found:
  assumes env: "fmlookup d ''env'' = Some (YList es)"
    and absent: "find_env n es = Inr None"
  shows "upsert_env n v (YDict d) =
     Inr (YDict (fmupd ''env'' (YList (es @ [YDict (fmap_of_list
       [(''name'', YStr n), (''value'', YStr v)])])) d))"
  using env absent by (simp add: upsert_env_def append_env_def modify_def rbind_def)

lemma upsert_env_no_env: "upsert_env n v (YDict (fmdrop ''env'' d)) = Inl KeyError"
  by (simp add: upsert_env_def append_env_def modify_def rbind_def)

lemma job_without_env_raises:
  "update_job_manifest render
     (YDict (fmap_of_list
        [(''metadata'', YDict (fmap_of_list [(''name'', YStr ''j'')])),
         (''spec'', YDict (fmap_of_list
            [(''template'', YDict (fmap_of_list
               [(''metadata'', YDict fmempty),
                (''spec'', YDict (fmap_of_list
                   [(''containers'', YList
                      [YDict (fmap_of_list [(''image'', YStr ''img:v1'')])])]))]))]))]))
     (Some ''X'') (Some ''1'') = Inl KeyError"
  by code_simp

text \<open>
  C3. A container without an \<open>env\<close> key makes the upsert raise \<open>KeyError\<close>: the search
  uses \<^verbatim>\<open>container.get('env', [])\<close>, but line 104 appends to \<^verbatim>\<open>container['env']\<close>.
  So does the whole transformation of a job whose only container has an image and no
  \<open>env\<close>, asked to set \<open>X\<close> to \<open>1\<close>.
\<close>

theorem upsert_env_missing_env_raises:
  "upsert_env n v (YDict (fmdrop ''env'' d)) = Inl KeyError
   \<and> update_job_manifest render
       (YDict (fmap_of_list
          [(''metadata'', YDict (fmap_of_list [(''name'', YStr ''j'')])),
           (''spec'', YDict (fmap_of_list
              [(''template'', YDict (fmap_of_list
                 [(''metadata'', YDict fmempty),
                  (''spec'', YDict (fmap_of_list
                     [(''containers'', YList
                        [YDict (fmap_of_list [(''image'', YStr ''img:v1'')])])]))]))]))]))
       (Some ''X'') (Some ''1'') = Inl KeyError"
  using upsert_env_no_env job_without_env_raises by simp




section \<open>The status poller\<close>

lemma classify_status_doc:
  "classify (status_doc s f a) =
     Inr (if 0 < s then Succeeded else if 0 < f then HasFailed else Running)"
  by (simp add: classify_def status_doc_def rbind_def)

lemma check_time_mono: "j \<le> k \<Longrightarrow> check_time delay j \<le> check_time delay k"
  by (induction k) (auto simp: le_Suc_eq)

lemma check_time_lower: "10000000 * k \<le> check_time delay k"
  by (induction k) auto

lemma poll_from_start:
  "\<forall>j<k. \<exists>v. reads j = Some v \<and> classify v = Inr Running \<Longrightarrow>
   \<forall>j<k. int (check_time delay j) < ts \<Longrightarrow>
   poll reads delay ts 0 0 = poll reads delay ts (check_time delay k) k"
proof (induction k)
  case 0
  then show ?case by simp
next
  case (Suc k)
  from Suc.prems obtain v where v: "reads k = Some v" "classify v = Inr Running"
    by auto
  from Suc.prems have now: "int (check_time delay k) < ts" by simp
  have "poll reads delay ts 0 0 = poll reads delay ts (check_time delay k) k"
    using Suc.prems by (intro Suc.IH) auto
  also have "\<dots> = poll reads delay ts (check_time delay k + delay k + 10000000) (Suc k)"
    using v now by (subst poll.simps) simp
  finally show ?case by simp
qed

lemma poll_stop:
  "\<not> int elapsed < ts \<Longrightarrow> poll reads delay ts elapsed i = (Inconclusive, i)"
  by (subst poll.simps) simp

lemma poll_completed:
  "int elapsed < ts \<Longrightarrow> reads i = Some v \<Longrightarrow> classify v = Inr Succeeded \<Longrightarrow>
   poll reads delay ts elapsed i = (Completed, Suc i)"
  by (subst poll.simps) simp

lemma poll_failed:
  "int elapsed < ts \<Longrightarrow> reads i = Some v \<Longrightarrow> classify v = Inr HasFailed \<Longrightarrow>
   poll reads delay ts elapsed i = (Failed, Suc i)"
  by (subst poll.simps) simp

lemma earlier_tests:
  assumes "int (check_time delay k) < ts"
  shows "\<forall>j<k. int (check_time delay j) < ts"
proof (intro allI impI)
  fix j assume "j < k"
  then have "check_time delay j \<le> check_time delay k"
    by (intro check_time_mono) simp
  with assms show "int (check_time delay j) < ts" by simp
qed

lemma check_completed:
  assumes "\<forall>j<k. \<exists>v. reads j = Some v \<and> classify v = Inr Running"
    and "int (check_time delay k) < t * 60 * 1000000"
    and "reads k = Some v" and "classify v = Inr Succeeded"
  shows "check_job_status reads delay t = (Completed, Suc k)"
proof -
  have "poll reads delay (t * 60 * 1000000) 0 0 =
        poll reads delay (t * 60 * 1000000) (check_time delay k) k"
    using assms(1) earlier_tests [OF assms(2)] by (rule poll_from_start)
  also have "\<dots> = (Completed, Suc k)"
    using assms(2-4) by (rule poll_completed)
  finally show ?thesis by (simp add: check_job_status_def)
qed

lemma check_failed:
  assumes "\<forall>j<k. \<exists>v. reads j = Some v \<and> classify v = Inr Running"
    and "int (check_time delay k) < t * 60 * 1000000"
    and "reads k = Some v" and "classify v = Inr HasFailed"
  shows "check_job_status reads delay t = (Failed, Suc k)"
proof -
  have "poll reads delay (t * 60 * 1000000) 0 0 =
        poll reads delay (t * 60 * 1000000) (check_time delay k) k"
    using assms(1) earlier_tests [OF assms(2)] by (rule poll_from_start)
  also have "\<dots> = (Failed, Suc k)"
    using assms(2-4) by (rule poll_failed)
  finally show ?thesis by (simp add: check_job_status_def)
qed

lemma check_inconclusive:
  assumes "\<forall>j<k. \<exists>v. reads j = Some v \<and> classify v = Inr Running"
    and "\<forall>j<k. int (check_time delay j) < t * 60 * 1000000"
    and "t * 60 * 1000000 \<le> int (check_time delay k)"
  shows "check_job_status reads delay t = (Inconclusive, k)"
proof -
  have "poll reads delay (t * 60 * 1000000) 0 0 =
        poll reads delay (t * 60 * 1000000) (check_time delay k) k"
    using assms(1,2) by (rule poll_from_start)
  also have "\<dots> = (Inconclusive, k)"
    using assms(3) by (intro poll_stop) simp
  finally show ?thesis by (simp add: check_job_status_def)
qed

lemma poll_reads_bound:
  "10000000 * int i \<le> int elapsed \<Longrightarrow>
   snd (poll reads delay ts elapsed i) \<le> i \<or>
   10000000 * int (snd (poll reads delay ts elapsed i)) < ts + 10000000"
proof (induction reads delay ts elapsed i rule: poll.induct)
  case (1 reads delay ts elapsed i)
  show ?case
  proof (cases "int elapsed < ts")
    case False
    then show ?thesis by (simp add: poll_stop)
  next
    case True
    with "1.prems" have next_read: "10000000 * int (Suc i) < ts + 10000000" by simp
    show ?thesis
    proof (cases "\<exists>v. reads i = Some v \<and> classify v = Inr Running")
      case False
      have "snd (poll reads delay ts elapsed i) = Suc i"
      proof (cases "reads i")
        case None
        with True show ?thesis by (subst poll.simps) simp
      next
        case (Some v)
        show ?thesis
        proof (cases "classify v")
          case (Inl e)
          with Some True show ?thesis by (subst poll.simps) simp
        next
          case (Inr w)
          with False Some have "w \<noteq> Running" by auto
          with Inr Some True show ?thesis by (subst poll.simps) (cases w; simp)
        qed
      qed
      with next_read show ?thesis by simp
    next
      case running: True
      then obtain v where v: "reads i = Some v" "classify v = Inr Running" by blast
      have step: "poll reads delay ts elapsed i =
                  poll reads delay ts (elapsed + delay i + 10000000) (Suc i)"
        using True v by (subst poll.simps) simp
      have "10000000 * int (Suc i) \<le> int (elapsed + delay i + 10000000)"
        using "1.prems" by simp
      with "1.IH" [OF True v(1) v(2) refl] 
      have "snd (poll reads delay ts (elapsed + delay i + 10000000) (Suc i)) \<le> Suc i \<or>
            10000000 * int (snd (poll reads delay ts (elapsed + delay i + 10000000) (Suc i)))
              < ts + 10000000"
        by blast
      with next_read step show ?thesis by auto
    qed
  qed
qed

lemma check_reads_bound: "int (snd (check_job_status reads delay t)) \<le> max 0 (6 * t)"
proof -
  have "snd (poll reads delay (t * 60 * 1000000) 0 0) \<le> 0 \<or>
        10000000 * int (snd (poll reads delay (t * 60 * 1000000) 0 0))
          < t * 60 * 1000000 + 10000000"
    by (rule poll_reads_bound) simp
  then show ?thesis by (auto simp: check_job_status_def)
qed

lemma monitored_exit_code:
  assumes "get_reply c = Some m"
    and "update_job_manifest render m (env_var_name a) (env_var_value a) = Inr u"
    and "opt_truthy (env_var_name a) = opt_truthy (env_var_value a)"
    and "\<not> dry_run a" and "delete_ok c" and "apply_ok c" and "monitor a"
    and "check_job_status (status_reads c) (status_delays c) (timeout a) = (outcome, n)"
  shows "exit_code (rerun_job_main render a c) =
           (case outcome of KubectlExit \<Rightarrow> 1 | Raised e \<Rightarrow> 1 | _ \<Rightarrow> 0)"
  using assms by (simp add: rerun_job_main_def Let_def)

text \<open>
  C10, as the code has it. The loop condition is tested \<open>check_time delay k\<close>
  microseconds after the start for the \<open>k\<close>-th time: every round took its read and ten
  seconds of sleep. If the reads before the \<open>k\<close>-th show no pod succeeded or failed,
  then: a \<open>k\<close>-th read that starts within the timeout of \<open>t\<close> minutes and shows a
  succeeded pod ends the loop as completed after \<open>k + 1\<close> reads; one that shows a failed
  pod and no succeeded one ends it as failed; and if the timeout has passed at the
  \<open>k\<close>-th test and not before, the loop ends as inconclusive after \<open>k\<close> reads. The loop
  makes at most \<open>6 * t\<close> reads. A read counts as succeeded when its succeeded count is
  positive, else as failed when its failed count is positive, else as running. On the
  reads \<open>{0,0,0}, {1,0,0}\<close> the loop ends after the second read, completed, when the
  second round starts within the timeout. A run whose monitoring ends inconclusive exits
  with status 0.
\<close>

theorem poller_outcome:
  "((\<forall>j<k. \<exists>v. reads j = Some v \<and> classify v = Inr Running) \<longrightarrow>
      (int (check_time delay k) < t * 60 * 1000000
         \<and> (\<exists>v. reads k = Some v \<and> classify v = Inr Succeeded) \<longrightarrow>
         check_job_status reads delay t = (Completed, Suc k))
    \<and> (int (check_time delay k) < t * 60 * 1000000
         \<and> (\<exists>v. reads k = Some v \<and> classify v = Inr HasFailed) \<longrightarrow>
         check_job_status reads delay t = (Failed, Suc k))
    \<and> ((\<forall>j<k. int (check_time delay j) < t * 60 * 1000000)
         \<and> t * 60 * 1000000 \<le> int (check_time delay k) \<longrightarrow>
         check_job_status reads delay t = (Inconclusive, k)))
   \<and> int (snd (check_job_status reads delay t)) \<le> max 0 (6 * t)
   \<and> classify (status_doc s f a) =
        Inr (if 0 < s then Succeeded else if 0 < f then HasFailed else Running)
   \<and> (int (delay 0) + 10000000 < t * 60 * 1000000
        \<and> reads 0 = Some (status_doc 0 0 0) \<and> reads 1 = Some (status_doc 1 0 0) \<longrightarrow>
        check_job_status reads delay t = (Completed, 2))
   \<and> (get_reply c = Some m
        \<and> update_job_manifest render m (env_var_name args) (env_var_value args) = Inr u
        \<and> opt_truthy (env_var_name args) = opt_truthy (env_var_value args)
        \<and> \<not> dry_run args \<and> delete_ok c \<and> apply_ok c \<and> monitor args
        \<and> fst (check_job_status (status_reads c) (status_delays c) (timeout args))
            = Inconclusive \<longrightarrow>
        exit_code (rerun_job_main render args c) = 0)"
proof (intro conjI impI)
  assume "\<forall>j<k. \<exists>v. reads j = Some v \<and> classify v = Inr Running"
    and "int (check_time delay k) < t * 60 * 1000000
         \<and> (\<exists>v. reads k = Some v \<and> classify v = Inr Succeeded)"
  then show "check_job_status reads delay t = (Completed, Suc k)"
    using check_completed by blast
next
  assume "\<forall>j<k. \<exists>v. reads j = Some v \<and> classify v = Inr Running"
    and "int (check_time delay k) < t * 60 * 1000000
         \<and> (\<exists>v. reads k = Some v \<and> classify v = Inr HasFailed)"
  then show "check_job_status reads delay t = (Failed, Suc k)"
    using check_failed by blast
next
  assume "\<forall>j<k. \<exists>v. reads j = Some v \<and> classify v = Inr Running"
    and "(\<forall>j<k. int (check_time delay j) < t * 60 * 1000000)
         \<and> t * 60 * 1000000 \<le> int (check_time delay k)"
  then show "check_job_status reads delay t = (Inconclusive, k)"
    using check_inconclusive by blast
next
  show "int (snd (check_job_status reads delay t)) \<le> max 0 (6 * t)"
    by (rule check_reads_bound)
next
  show "classify (status_doc s f a) =
        Inr (if 0 < s then Succeeded else if 0 < f then HasFailed else Running)"
    by (rule classify_status_doc)
next
  assume ex: "int (delay 0) + 10000000 < t * 60 * 1000000
        \<and> reads 0 = Some (status_doc 0 0 0) \<and> reads 1 = Some (status_doc 1 0 0)"
  have "check_job_status reads delay t = (Completed, Suc 1)"
  proof (rule check_completed)
    show "\<forall>j<1. \<exists>v. reads j = Some v \<and> classify v = Inr Running"
      using ex by (simp add: classify_status_doc)
    show "int (check_time delay 1) < t * 60 * 1000000" using ex by simp
    show "reads 1 = Some (status_doc 1 0 0)" using ex by simp
    show "classify (status_doc 1 0 0) = Inr Succeeded" by (simp add: classify_status_doc)
  qed
  then show "check_job_status reads delay t = (Completed, 2)"
    by (simp add: numeral_2_eq_2)
next
  assume h: "get_reply c = Some m
        \<and> update_job_manifest render m (env_var_name args) (env_var_value args) = Inr u
        \<and> opt_truthy (env_var_name args) = opt_truthy (env_var_value args)
        \<and> \<not> dry_run args \<and> delete_ok c \<and> apply_ok c \<and> monitor args
        \<and> fst (check_job_status (status_reads c) (status_delays c) (timeout args))
            = Inconclusive"
  obtain n where
    "check_job_status (status_reads c) (status_delays c) (timeout args) = (Inconclusive, n)"
    using h by (cases "check_job_status (status_reads c) (status_delays c) (timeout args)") auto
  with h show "exit_code (rerun_job_main render args c) = 0"
    using monitored_exit_code [of c m render args u Inconclusive n] by simp
qed

lemma sample_job_plain:
  "update_job_manifest render sample_job None None =
   Inr (YDict (fmap_of_list
     [(''metadata'', YDict (fmap_of_list
         [(''name'', YStr ''j''), (''managedFields'', YList []),
          (''annotations'', YDict (fmap_of_list [(''owner'', YStr ''ops'')]))])),
      (''spec'', YDict (fmap_of_list
         [(''template'', YDict (fmap_of_list
             [(''metadata'', YDict (fmap_of_list [(''creationTimestamp'', YNull)])),
              (''spec'', YDict (fmap_of_list
                 [(''containers'', YList
                    [YDict (fmap_of_list
                       [(''image'', YStr ''img:latest''),
                        (''env'', YList [YDict (fmap_of_list
                           [(''name'', YStr ''X''), (''value'', YStr ''1 2'')])])])]),
                  (''restartPolicy'', YStr ''Never'')]))]))]))]))"
  by code_simp

theorem poller_outcome_witness:
  "check_job_status
     (\<lambda>i. if i = 0 then Some (status_doc 0 0 0) else if i = 1 then Some (status_doc 1 0 0) else None)
     (\<lambda>i. 500000) 10 = (Completed, 2)
   \<and> check_job_status (\<lambda>i. if i = 0 then Some (status_doc 0 0 1) else Some (status_doc 0 2 0))
       (\<lambda>i. 500000) 1 = (Failed, 2)
   \<and> check_job_status (\<lambda>i. Some (status_doc 0 0 1)) (\<lambda>i. 20000000) 1 = (Inconclusive, 2)
   \<and> exit_code (rerun_job_main (\<lambda>v. [])
        \<lparr>job_name = ''j'', namespace = ''ns'', env_var_name = None, env_var_value = None,
         monitor = True, timeout = 1, dry_run = False\<rparr>
        \<lparr>get_reply = Some sample_job, delete_ok = True, apply_ok = True,
         status_reads = (\<lambda>i. Some (status_doc 0 0 1)),
         status_delays = (\<lambda>i. 20000000)\<rparr>) = 0"
proof -
  let ?r1 = "\<lambda>i::nat. if i = 0 then Some (status_doc 0 0 0)
                     else if i = 1 then Some (status_doc 1 0 0) else None"
  let ?r2 = "\<lambda>i::nat. if i = 0 then Some (status_doc 0 0 1) else Some (status_doc 0 2 0)"
  let ?r3 = "\<lambda>i::nat. Some (status_doc 0 0 1)"
  let ?fast = "\<lambda>i::nat. 500000::nat"
  let ?slow = "\<lambda>i::nat. 20000000::nat"
  let ?args = "\<lparr>job_name = ''j'', namespace = ''ns'', env_var_name = None, env_var_value = None,
         monitor = True, timeout = 1, dry_run = False\<rparr>"
  let ?c = "\<lparr>get_reply = Some sample_job, delete_ok = True, apply_ok = True,
         status_reads = ?r3, status_delays = ?slow\<rparr>"
  have cl: "\<And>s f a. classify (status_doc s f a) =
        Inr (if 0 < s then Succeeded else if 0 < f then HasFailed else Running)"
    using poller_outcome by blast
  have t1: "check_time ?fast 1 = 10500000" by simp
  have t2: "check_time ?slow 1 = 30000000" "check_time ?slow 2 = 60000000"
    by (simp_all add: numeral_2_eq_2)
  have a: "check_job_status ?r1 ?fast 10 = (Completed, 2)"
    using poller_outcome [of 1 ?r1 ?fast 10] by (simp add: cl)
  have b: "check_job_status ?r2 ?fast 1 = (Failed, 2)"
    using poller_outcome [of 1 ?r2 ?fast 1] by (simp add: cl)
  have c: "check_job_status ?r3 ?slow 1 = (Inconclusive, 2)"
    using poller_outcome [of 2 ?r3 ?slow 1] t2 by (simp add: cl less_Suc_eq numeral_2_eq_2)
  have d: "exit_code (rerun_job_main (\<lambda>v. []) ?args ?c) = 0"
    using poller_outcome [of 0 ?r3 ?slow 1 0 0 0 ?c sample_job "\<lambda>v. []" ?args] c
      sample_job_plain [of "\<lambda>v. []"]
    by (simp add: opt_truthy_def)
  from a b c d show ?thesis by blast
qed

text \<open>
  C10 as stated fails for a timeout of 0 minutes, which the command line accepts: on
  the reads \<open>{0,0,0}, {1,0,0}\<close> the loop makes no read at all and ends inconclusive.
\<close>

theorem poller_zero_timeout_counterexample:
  "check_job_status
     (\<lambda>i. if i = 0 then Some (status_doc 0 0 0) else Some (status_doc 1 0 0))
     (\<lambda>i. 0) 0 = (Inconclusive, 0)"
  by (simp add: check_job_status_def poll_stop)

section \<open>Sample runs\<close>

lemma sample_job_upsert:
  "update_job_manifest render sample_job (Some ''X'') (Some ''3'') = Inr sample_job_updated"
  by code_simp




section \<open>Empty container lists\<close>

lemma get_path_Key:
  "get_path (Key k # p) v = Some x \<Longrightarrow> \<exists>w. getitem v k = Inr w \<and> get_path p w = Some x"
  by (cases v) (auto split: option.splits)

lemma mutate_job_empty:
  assumes "get_path containers_path m = Some (YList [])"
  shows "mutate_job render n v m = Inl ValueError"
proof -
  from assms obtain spec where spec: "getitem m ''spec'' = Inr spec"
    and p1: "get_path [Key ''template'', Key ''spec'', Key ''containers''] spec = Some (YList [])"
    unfolding containers_path_def by (blast dest: get_path_Key)
  from p1 obtain template where template: "getitem spec ''template'' = Inr template"
    and p2: "get_path [Key ''spec'', Key ''containers''] template = Some (YList [])"
    by (blast dest: get_path_Key)
  from p2 obtain tspec where tspec: "getitem template ''spec'' = Inr tspec"
    and p3: "get_path [Key ''containers''] tspec = Some (YList [])"
    by (blast dest: get_path_Key)
  from p3 have containers: "getitem tspec ''containers'' = Inr (YList [])"
    by (auto dest: get_path_Key)
  show ?thesis
    by (simp add: mutate_job_def modify_def rbind_def spec template tspec containers)
qed

text \<open>
  C9, as the code has it. A job whose \<open>spec.template.spec.containers\<close> is the empty
  sequence makes \<open>update_job_manifest\<close> raise \<open>ValueError\<close>, whatever variable is
  asked for; the run exits with status 1 and has issued at most the initial
  \<^verbatim>\<open>kubectl get\<close>, so no delete and no apply.
\<close>

theorem empty_containers_job_aborts:
  assumes "get_path containers_path m = Some (YList [])" and "get_reply c = Some m"
  shows "update_job_manifest render m n v = Inl ValueError
    \<and> exit_code (rerun_job_main render args c) = 1
    \<and> (calls (rerun_job_main render args c) = []
        \<or> calls (rerun_job_main render args c) = [KGet ''job'' (job_name args) (namespace args)])"
proof -
  have raised: "\<And>n v. update_job_manifest render m n v = Inl ValueError"
    using assms(1) by (simp add: update_job_manifest_def mutate_job_empty rbind_def)
  show ?thesis
    using assms(2) raised by (simp add: rerun_job_main_def Let_def)
qed

theorem empty_containers_job_aborts_witness:
  "rerun_job_main (\<lambda>v. [])
     \<lparr>job_name = ''j'', namespace = ''ns'', env_var_name = None, env_var_value = None,
      monitor = False, timeout = 10, dry_run = False\<rparr>
     \<lparr>get_reply = Some (YDict (fmupd ''spec'' (YDict (fmupd ''template'' (YDict
        (fmupd ''spec'' (YDict (fmupd ''containers'' (YList []) fmempty)) fmempty))
        fmempty)) fmempty)),
      delete_ok = True, apply_ok = True, status_reads = (\<lambda>i. None), status_delays = (\<lambda>i. 0)\<rparr>
   = \<lparr>calls = [KGet ''job'' ''j'' ''ns''], exit_code = 1, shown = None\<rparr>"
proof -
  let ?m = "YDict (fmupd ''spec'' (YDict (fmupd ''template'' (YDict
        (fmupd ''spec'' (YDict (fmupd ''containers'' (YList []) fmempty)) fmempty))
        fmempty)) fmempty)"
  let ?c = "\<lparr>get_reply = Some ?m, delete_ok = True, apply_ok = True,
             status_reads = (\<lambda>i. None), status_delays = (\<lambda>i. 0)\<rparr>"
  let ?a = "\<lparr>job_name = ''j'', namespace = ''ns'', env_var_name = None, env_var_value = None,
      monitor = False, timeout = 10, dry_run = False\<rparr>"
  have path: "get_path containers_path ?m = Some (YList [])"
    by (simp add: containers_path_def)
  have reply: "get_reply ?c = Some ?m" by simp
  have "update_job_manifest (\<lambda>v. []) ?m None None = Inl ValueError"
    using empty_containers_job_aborts [OF path reply] by blast
  then show ?thesis
    by (simp add: rerun_job_main_def Let_def opt_truthy_def)
qed

text \<open>
  C9 as stated fails for the stateful set: \<open>clean_manifest\<close> never looks at the
  containers. With an empty container list it succeeds, and the confirmed run deletes
  and applies.
\<close>

theorem empty_containers_sts_counterexample:
  "get_path containers_path bare_statefulset = Some (YList [])
   \<and> clean_manifest bare_statefulset = Inr bare_statefulset
   \<and> sts_resizer_main
        \<lparr>statefulset_name = ''db'', sts_namespace = ''prod'', sts_dry_run = False,
         new_pv_size = None\<rparr>
        \<lparr>sts_get_reply = Some bare_statefulset, backup_ok = True,
         pods_reply = Some (YDict (fmap_of_list [(''items'', YList [])])),
         stdin = ['''', ''yes''], sts_delete_ok = True, sts_apply_ok = True\<rparr>
     = \<lparr>calls =
          [KGet ''statefulset'' ''db'' ''prod'', KGetPods ''prod'' ''app=db'',
           KDelete ''statefulset'' ''db'' ''prod'' False,
           KApply bare_statefulset ''prod''],
        exit_code = 0, shown = Some bare_statefulset, backup = Some bare_statefulset\<rparr>"
  by code_simp

section \<open>Dry runs\<close>








section \<open>Steps that succeed\<close>

lemma rbind_Inr [inv]: "rbind r f = Inr y \<longleftrightarrow> (\<exists>x. r = Inr x \<and> f x = Inr y)"
  by (cases r) (auto simp: rbind_def)

lemma seq_Inr [inv]: "seq f g x = Inr z \<longleftrightarrow> (\<exists>y. f x = Inr y \<and> g y = Inr z)"
  by (simp add: seq_def rbind_Inr)

lemma pop_Inr [inv]: "pop k v = Inr v' \<longleftrightarrow> (\<exists>d. v = YDict d \<and> v' = YDict (fmdrop k d))"
  by (cases v) auto

lemma pop1_Inr [inv]:
  "pop1 k v = Inr v' \<longleftrightarrow> (\<exists>d. v = YDict d \<and> fmlookup d k \<noteq> None \<and> v' = YDict (fmdrop k d))"
  by (cases v) auto

lemma getitem_Inr [inv]: "getitem v k = Inr x \<longleftrightarrow> (\<exists>d. v = YDict d \<and> fmlookup d k = Some x)"
  by (cases v) (auto split: option.splits)

lemma setitem_Inr [inv]:
  "setitem v k x = Inr v' \<longleftrightarrow> (\<exists>d. v = YDict d \<and> v' = YDict (fmupd k x d))"
  by (cases v) auto

lemma modify_Inr [inv]:
  "modify k f v = Inr v' \<longleftrightarrow>
   (\<exists>d x x'. v = YDict d \<and> fmlookup d k = Some x \<and> f x = Inr x' \<and> v' = YDict (fmupd k x' d))"
  by (auto simp: modify_def rbind_Inr getitem_Inr setitem_Inr)

lemma when_in_Inr [inv]:
  "when_in k f v = Inr v' \<longleftrightarrow>
   (\<exists>b. contains k v = Inr b \<and> (if b then f v = Inr v' else v' = v))"
  by (auto simp: when_in_def rbind_Inr)

lemma retract_pop [alg]: "retract (pop k)"
  by (auto simp: retract_def pop_Inr)

lemma retract_modify [alg]: "retract f \<Longrightarrow> retract (modify k f)"
  by (auto simp: retract_def modify_Inr)

lemma retract_seq [alg]: "retract f \<Longrightarrow> retract g \<Longrightarrow> keeps f g \<Longrightarrow> retract (seq f g)"
  unfolding retract_def keeps_def seq_Inr by metis

lemma retract_when_in [alg]: "retract f \<Longrightarrow> keeps_key k f \<Longrightarrow> retract (when_in k f)"
  unfolding retract_def keeps_key_def when_in_Inr by (metis (full_types))

lemma keeps_key_modify [alg]: "keeps_key k (modify k' f)"
  by (auto simp: keeps_key_def modify_Inr)

lemma keeps_key_pop [alg]: "k \<noteq> k' \<Longrightarrow> keeps_key k (pop k')"
  by (auto simp: keeps_key_def pop_Inr)

lemma keeps_key_seq [alg]: "keeps_key k f \<Longrightarrow> keeps_key k g \<Longrightarrow> keeps_key k (seq f g)"
  by (auto simp: keeps_key_def seq_Inr)

lemma keeps_key_when_in [alg]: "keeps_key k f \<Longrightarrow> keeps_key k (when_in k' f)"
  by (auto simp: keeps_key_def when_in_Inr split: if_splits)

lemma pop_stable: "pop k x = Inr x \<longleftrightarrow> (\<exists>d. x = YDict d \<and> fmlookup d k = None)"
proof
  assume "pop k x = Inr x"
  then obtain d where x: "x = YDict d" and d: "d = fmdrop k d"
    by (auto simp: pop_Inr)
  have "fmlookup (fmdrop k d) k = None" by simp
  with d have "fmlookup d k = None" by simp
  with x show "\<exists>d. x = YDict d \<and> fmlookup d k = None" by blast
next
  assume "\<exists>d. x = YDict d \<and> fmlookup d k = None"
  then show "pop k x = Inr x" by (auto simp: fmdrop_absent)
qed

lemma modify_stable:
  "modify k f x = Inr x \<longleftrightarrow> (\<exists>d v. x = YDict d \<and> fmlookup d k = Some v \<and> f v = Inr v)"
proof
  assume "modify k f x = Inr x"
  then obtain d v v' where x: "x = YDict d" and v: "fmlookup d k = Some v"
    and f: "f v = Inr v'" and d: "d = fmupd k v' d"
    by (auto simp: modify_Inr)
  have "fmlookup (fmupd k v' d) k = Some v'" by simp
  with d v have "v' = v" by simp
  with x v f show "\<exists>d v. x = YDict d \<and> fmlookup d k = Some v \<and> f v = Inr v" by blast
next
  assume "\<exists>d v. x = YDict d \<and> fmlookup d k = Some v \<and> f v = Inr v"
  then show "modify k f x = Inr x" by (auto simp: modify_Inr fmupd_same)
qed

lemma keeps_pop_pop [alg]: "keeps (pop k) (pop k')"
  unfolding keeps_def
proof (intro allI impI)
  fix x y assume "pop k x = Inr x" and "pop k' x = Inr y"
  then obtain d where "x = YDict d" "fmlookup d k = None" "y = YDict (fmdrop k' d)"
    by (auto simp: pop_stable)
  then show "pop k y = Inr y" unfolding pop_stable by auto
qed

lemma keeps_pop_modify [alg]: "keeps (pop k) (modify k' g)"
  unfolding keeps_def
proof (intro allI impI)
  fix x y assume "pop k x = Inr x" and "modify k' g x = Inr y"
  then obtain d v v' where "x = YDict d" "fmlookup d k = None" "fmlookup d k' = Some v"
    "y = YDict (fmupd k' v' d)"
    by (auto simp: pop_stable modify_Inr)
  then show "pop k y = Inr y" unfolding pop_stable by auto
qed

lemma keeps_modify_pop [alg]: "k \<noteq> k' \<Longrightarrow> keeps (modify k f) (pop k')"
  unfolding keeps_def
proof (intro allI impI)
  fix x y assume "k \<noteq> k'" and "modify k f x = Inr x" and "pop k' x = Inr y"
  then obtain d v where "x = YDict d" "fmlookup d k = Some v" "f v = Inr v"
    "y = YDict (fmdrop k' d)"
    by (auto simp: modify_stable)
  with \<open>k \<noteq> k'\<close> show "modify k f y = Inr y" unfolding modify_stable by auto
qed

lemma keeps_modify_modify [alg]:
  assumes "k = k' \<Longrightarrow> keeps f g"
  shows "keeps (modify k f) (modify k' g)"
  unfolding keeps_def
proof (intro allI impI)
  fix x y assume "modify k f x = Inr x" and "modify k' g x = Inr y"
  then obtain d v w w' where x: "x = YDict d" and v: "fmlookup d k = Some v" "f v = Inr v"
    and w: "fmlookup d k' = Some w" "g w = Inr w'" and y: "y = YDict (fmupd k' w' d)"
    by (auto simp: modify_stable modify_Inr)
  show "modify k f y = Inr y"
  proof (cases "k = k'")
    case True
    with v w have "f w' = Inr w'" using assms by (auto simp: keeps_def)
    with True y show ?thesis unfolding modify_stable by auto
  next
    case False
    with v y show ?thesis unfolding modify_stable by auto
  qed
qed

lemma keeps_seq_right [alg]: "keeps f g \<Longrightarrow> keeps f h \<Longrightarrow> keeps f (seq g h)"
  unfolding keeps_def seq_Inr by metis

lemma keeps_seq_left [alg]:
  "retract f \<Longrightarrow> keeps f g \<Longrightarrow> keeps f h \<Longrightarrow> keeps g h \<Longrightarrow> keeps (seq f g) h"
  unfolding keeps_def retract_def seq_Inr by (metis Inr_inject)

lemma keeps_when_in_right [alg]: "keeps f g \<Longrightarrow> keeps f (when_in k g)"
  by (auto simp: keeps_def when_in_Inr split: if_splits)

lemma keeps_when_in_left [alg]: "keeps f g \<Longrightarrow> keeps_key k g \<Longrightarrow> keeps (when_in k f) g"
  unfolding keeps_def keeps_key_def when_in_Inr by (metis (full_types))

section \<open>Cleaning a job twice\<close>

lemma clean_job_metadata_seq:
  "clean_job_metadata =
     seq (pop ''creationTimestamp'') (seq (pop ''resourceVersion'') (seq (pop ''uid'')
       (seq (pop ''generation'') (pop ''labels''))))"
  by (simp add: fun_eq_iff clean_job_metadata_def seq_def)

lemma clean_job_annotations_seq:
  "clean_job_annotations =
     when_in ''annotations''
       (modify ''annotations'' (pop ''kubectl.kubernetes.io/last-applied-configuration''))"
  by (simp add: fun_eq_iff clean_job_annotations_def)

lemma clean_job_seq:
  "clean_job =
     seq (when_in ''metadata''
            (seq (modify ''metadata'' clean_job_metadata)
            (seq (modify ''spec'' (modify ''template'' (modify ''metadata'' (pop ''labels''))))
            (seq (modify ''spec'' (pop ''selector''))
                 (modify ''metadata'' clean_job_annotations)))))
       (seq (pop ''status'') (seq (pop ''matchLabels'') (pop ''selector'')))"
  by (simp add: fun_eq_iff clean_job_def seq_def)

lemma retract_clean_job: "retract clean_job"
  unfolding clean_job_seq clean_job_metadata_seq clean_job_annotations_seq
  by (intro alg; simp)

lemma clean_job_idem: "clean_job m = Inr m' \<Longrightarrow> clean_job m' = Inr m'"
  using retract_clean_job by (simp add: retract_def)

section \<open>What a step leaves alone\<close>

lemma outside_under: "outside T (s # p) \<Longrightarrow> outside (under s T) p"
  by (auto simp: outside_def under_def)

lemma outside_Nil: "outside T [] \<Longrightarrow> T = {}"
  by (auto simp: outside_def)

lemma outside_mono: "T \<subseteq> T' \<Longrightarrow> outside T' p \<Longrightarrow> outside T p"
  by (auto simp: outside_def)

lemma same_outside_empty: "same_outside {} v v' \<Longrightarrow> v' = v"
proof -
  assume "same_outside {} v v'"
  then have "get_path [] v' = get_path [] v"
    by (simp add: same_outside_def outside_def)
  then show ?thesis by simp
qed

lemma same_outside_refl: "same_outside T v v"
  by (simp add: same_outside_def)

lemma same_outside_trans:
  "same_outside T a b \<Longrightarrow> same_outside T b c \<Longrightarrow> same_outside T a c"
  by (simp add: same_outside_def)

lemma same_outside_mono: "T \<subseteq> T' \<Longrightarrow> same_outside T v v' \<Longrightarrow> same_outside T' v v'"
  by (auto simp: same_outside_def dest: outside_mono)

lemma frame_mono: "T \<subseteq> T' \<Longrightarrow> frame T f \<Longrightarrow> frame T' f"
  by (auto simp: frame_def dest: same_outside_mono)

lemma same_outside_key:
  assumes inner: "same_outside (under (Key k) T) a a'"
    and a: "fmlookup d k = Some a"
  shows "same_outside T (YDict d) (YDict (fmupd k a' d))"
  unfolding same_outside_def
proof (intro allI impI)
  fix p assume out: "outside T p"
  show "get_path p (YDict (fmupd k a' d)) = get_path p (YDict d)"
  proof (cases p)
    case Nil
    with out have "T = {}" by (simp add: outside_Nil)
    then have "under (Key k) T = {}" by (simp add: under_def)
    with inner have "a' = a" by (simp add: same_outside_empty)
    with a Nil show ?thesis by (simp add: fmupd_same)
  next
    case (Cons s q)
    show ?thesis
    proof (cases "s = Key k")
      case True
      with out Cons have "outside (under (Key k) T) q" by (simp add: outside_under)
      with inner have "get_path q a' = get_path q a" by (simp add: same_outside_def)
      with True Cons a show ?thesis by simp
    next
      case False
      with Cons show ?thesis by (cases s) auto
    qed
  qed
qed

lemma frame_modify [frm]: "frame (under (Key k) T) f \<Longrightarrow> frame T (modify k f)"
  by (auto simp: frame_def modify_Inr intro: same_outside_key)

lemma same_outside_drop:
  assumes "[Key k] \<in> T"
  shows "same_outside T (YDict d) (YDict (fmdrop k d))"
  unfolding same_outside_def
proof (intro allI impI)
  fix p assume out: "outside T p"
  with assms have np: "\<not> prefix [Key k] p" and pn: "\<not> prefix p [Key k]"
    by (auto simp: outside_def)
  show "get_path p (YDict (fmdrop k d)) = get_path p (YDict d)"
  proof (cases p)
    case Nil
    with pn show ?thesis by simp
  next
    case (Cons s q)
    with np have "s \<noteq> Key k" by auto
    with Cons show ?thesis by (cases s) auto
  qed
qed

lemma frame_pop [frm]: "[Key k] \<in> T \<Longrightarrow> frame T (pop k)"
  by (auto simp: frame_def pop_Inr intro: same_outside_drop)

lemma frame_pop1 [frm]: "[Key k] \<in> T \<Longrightarrow> frame T (pop1 k)"
  by (auto simp: frame_def pop1_Inr intro: same_outside_drop)

lemma same_outside_set:
  assumes "[Key k] \<in> T"
  shows "same_outside T (YDict d) (YDict (fmupd k a d))"
  unfolding same_outside_def
proof (intro allI impI)
  fix p assume out: "outside T p"
  with assms have np: "\<not> prefix [Key k] p" and pn: "\<not> prefix p [Key k]"
    by (auto simp: outside_def)
  show "get_path p (YDict (fmupd k a d)) = get_path p (YDict d)"
  proof (cases p)
    case Nil
    with pn show ?thesis by simp
  next
    case (Cons s q)
    with np have "s \<noteq> Key k" by auto
    with Cons show ?thesis by (cases s) auto
  qed
qed

lemma frame_seq [frm]: "frame T f \<Longrightarrow> frame T g \<Longrightarrow> frame T (seq f g)"
  unfolding frame_def seq_Inr by (metis same_outside_trans)

lemma frame_when_in [frm]: "frame T f \<Longrightarrow> frame T (when_in k f)"
  by (auto simp: frame_def when_in_Inr same_outside_refl split: if_splits)

lemma removes_pop [frm]: "removes (Key k # q) (pop k)"
  by (auto simp: removes_def pop_Inr)

lemma removes_modify [frm]: "removes q f \<Longrightarrow> removes (Key k # q) (modify k f)"
  by (auto simp: removes_def modify_Inr)

lemma removes_when_in [frm]: "removes (Key k # q) f \<Longrightarrow> removes (Key k # q) (when_in k f)"
proof -
  assume r: "removes (Key k # q) f"
  have "get_path (Key k # q) x = None" if "contains k x = Inr False" for x
    using that by (cases x) (auto split: option.splits)
  with r show ?thesis
    by (auto simp: removes_def when_in_Inr split: if_splits)
qed

lemma removes_seq_last: "removes p g \<Longrightarrow> removes p (seq f g)"
  by (auto simp: removes_def seq_Inr)

lemma removes_seq_first: "removes p f \<Longrightarrow> frame T g \<Longrightarrow> outside T p \<Longrightarrow> removes p (seq f g)"
  by (auto simp: removes_def frame_def same_outside_def seq_Inr)

lemma get_path_append: "get_path p v = Some w \<Longrightarrow> get_path (p @ q) v = get_path q w"
  by (induction p v rule: get_path.induct) (auto split: option.splits if_splits)

lemma frame_clean_job: "frame job_removed clean_job"
  unfolding clean_job_seq clean_job_metadata_seq clean_job_annotations_seq
  by (intro frm; simp add: under_def job_removed_def)

lemma modify0_Inr:
  "modify0 f v = Inr v' \<longleftrightarrow>
     (\<exists>c cs c'. v = YList (c # cs) \<and> f c = Inr c' \<and> v' = YList (c' # cs)) \<or>
     (\<exists>ch s c'. v = YStr (ch # s) \<and> f (YStr [ch]) = Inr c' \<and> v' = v)"
proof (cases v)
  case (YList xs)
  then show ?thesis by (cases xs) (auto simp: modify0_def rbind_Inr)
next
  case (YStr s)
  then show ?thesis by (cases s) (auto simp: modify0_def rbind_Inr)
qed (auto simp: modify0_def rbind_Inr)

lemma set_image_latest_shape:
  "set_image_latest render c = Inr c' \<Longrightarrow> \<exists>d a. c = YDict d \<and> c' = YDict (fmupd ''image'' a d)"
  by (auto simp: set_image_latest_def rbind_Inr getitem_Inr setitem_Inr
      split: if_splits yval.splits list.splits)

lemma append_env_shape:
  "append_env n v c = Inr c' \<Longrightarrow> \<exists>d a. c = YDict d \<and> c' = YDict (fmupd ''env'' a d)"
  by (auto simp: append_env_def modify_Inr)

lemma upsert_env_shape:
  assumes "upsert_env n v c = Inr c'"
  shows "\<exists>d a. c = YDict d \<and> c' = YDict (fmupd ''env'' a d)"
proof -
  from assms obtain d where c: "c = YDict d"
    by (cases c) (auto simp: upsert_env_def)
  define ev where "ev = (case fmlookup d ''env'' of None \<Rightarrow> YList [] | Some x \<Rightarrow> x)"
  from assms c obtain found where body:
    "(case (found, ev) of
        (Some i, YList es) \<Rightarrow>
          (if truthy (es ! i) then
             rbind (update_env_value v (es ! i)) (\<lambda>e'. setitem c ''env'' (YList (es[i := e'])))
           else append_env n v c)
      | _ \<Rightarrow> append_env n v c) = Inr c'"
    by (auto simp: upsert_env_def Let_def rbind_Inr ev_def)
  have "append_env n v c = Inr c' \<or> (\<exists>a. setitem c ''env'' a = Inr c')"
  proof (cases found)
    case None
    with body show ?thesis by simp
  next
    case (Some i)
    with body show ?thesis
      by (cases ev) (auto simp: rbind_Inr split: if_splits)
  qed
  then show ?thesis
    using c by (auto dest: append_env_shape simp: setitem_Inr)
qed

lemma mutate_container_image:
  assumes run: "mutate_container render n v c = Inr c'"
    and img: "get_path [Key ''image''] c = Some (YStr s)"
  shows "get_path [Key ''image''] c' =
           Some (YStr (takeWhile (\<lambda>x. x \<noteq> CHR '':'') s @ '':latest''))"
proof -
  from img obtain d where c: "c = YDict d" and d: "fmlookup d ''image'' = Some (YStr s)"
    by (cases c) (auto split: option.splits)
  then have "c = YDict (fmupd ''image'' (YStr s) d)" by (simp add: fmupd_same)
  then have first: "set_image_latest render c =
      Inr (YDict (fmupd ''image'' (YStr (takeWhile (\<lambda>x. x \<noteq> CHR '':'') s @ '':latest'')) d))"
    using set_image_latest_str [of render s d] by simp
  from run first have "c' = YDict (fmupd ''image'' (YStr (takeWhile (\<lambda>x. x \<noteq> CHR '':'') s @ '':latest'')) d)
      \<or> upsert_env (the n) (the v)
           (YDict (fmupd ''image'' (YStr (takeWhile (\<lambda>x. x \<noteq> CHR '':'') s @ '':latest'')) d)) = Inr c'"
    by (auto simp: mutate_container_def rbind_def split: if_splits)
  then show ?thesis
    by (auto dest!: upsert_env_shape)
qed

lemma mutate_job_at:
  assumes "mutate_job render n v m = Inr m1"
  shows "\<exists>c cs c'. get_path containers_path m = Some (YList (c # cs))
           \<and> get_path containers_path m1 = Some (YList (c' # cs))
           \<and> mutate_container render n v c = Inr c'"
proof -
  from assms obtain d0 a0 a0' where m: "m = YDict d0" "fmlookup d0 ''spec'' = Some a0"
      "m1 = YDict (fmupd ''spec'' a0' d0)"
    and s0: "modify ''template'' (modify ''spec'' (modify ''containers''
       (\<lambda>containers. if \<not> truthy containers then Inl ValueError
          else modify0 (mutate_container render n v) containers))) a0 = Inr a0'"
    unfolding mutate_job_def by (subst (asm) modify_Inr) blast
  from s0 obtain d1 a1 a1' where t: "a0 = YDict d1" "fmlookup d1 ''template'' = Some a1"
      "a0' = YDict (fmupd ''template'' a1' d1)"
    and s1: "modify ''spec'' (modify ''containers''
       (\<lambda>containers. if \<not> truthy containers then Inl ValueError
          else modify0 (mutate_container render n v) containers)) a1 = Inr a1'"
    by (subst (asm) modify_Inr) blast
  from s1 obtain d2 a2 a2' where u: "a1 = YDict d2" "fmlookup d2 ''spec'' = Some a2"
      "a1' = YDict (fmupd ''spec'' a2' d2)"
    and s2: "modify ''containers''
       (\<lambda>containers. if \<not> truthy containers then Inl ValueError
          else modify0 (mutate_container render n v) containers) a2 = Inr a2'"
    by (subst (asm) modify_Inr) blast
  from s2 obtain d3 a3 a3' where w: "a2 = YDict d3" "fmlookup d3 ''containers'' = Some a3"
      "a2' = YDict (fmupd ''containers'' a3' d3)"
    and s3: "(if \<not> truthy a3 then Inl ValueError
          else modify0 (mutate_container render n v) a3) = Inr a3'"
    by (subst (asm) modify_Inr) blast
  from s3 have s4: "modify0 (mutate_container render n v) a3 = Inr a3'"
    by (simp split: if_splits)
  have nostr: "mutate_container render n v (YStr x) \<noteq> Inr y" for x y
    by (simp add: mutate_container_def set_image_latest_def rbind_def)
  from s4 nostr obtain c cs c' where l: "a3 = YList (c # cs)" "a3' = YList (c' # cs)"
      "mutate_container render n v c = Inr c'"
    unfolding modify0_Inr by blast
  from m t u w l show ?thesis
    by (auto simp: containers_path_def)
qed

section \<open>The image of the first container\<close>

lemma outside_job_removed_containers: "outside job_removed (containers_path @ q)"
  by (simp add: outside_def job_removed_def containers_path_def)

lemma clean_job_containers:
  "clean_job m1 = Inr m' \<Longrightarrow> get_path (containers_path @ q) m' = get_path (containers_path @ q) m1"
  using frame_clean_job outside_job_removed_containers
  by (simp add: frame_def same_outside_def)

lemma update_job_manifest_first_image:
  assumes run: "update_job_manifest render m n v = Inr m'"
    and img: "get_path (containers_path @ [Idx 0, Key ''image'']) m = Some (YStr s)"
  shows "get_path (containers_path @ [Idx 0, Key ''image'']) m' =
           Some (YStr (takeWhile (\<lambda>c. c \<noteq> CHR '':'') s @ '':latest''))"
    and "get_path (containers_path @ Idx (Suc i) # p) m' =
           get_path (containers_path @ Idx (Suc i) # p) m"
proof -
  from run obtain m1 where mut: "mutate_job render n v m = Inr m1"
    and clean: "clean_job m1 = Inr m'"
    by (auto simp: update_job_manifest_def rbind_Inr)
  from mutate_job_at [OF mut] obtain c cs c' where
    before: "get_path containers_path m = Some (YList (c # cs))"
    and after: "get_path containers_path m1 = Some (YList (c' # cs))"
    and cont: "mutate_container render n v c = Inr c'"
    by blast
  from img have "get_path [Key ''image''] c = Some (YStr s)"
    by (simp add: get_path_append [OF before])
  then have "get_path [Key ''image''] c' =
      Some (YStr (takeWhile (\<lambda>c. c \<noteq> CHR '':'') s @ '':latest''))"
    using cont by (rule mutate_container_image [rotated])
  then have "get_path (containers_path @ [Idx 0, Key ''image'']) m1 =
      Some (YStr (takeWhile (\<lambda>c. c \<noteq> CHR '':'') s @ '':latest''))"
    by (simp add: get_path_append [OF after])
  then show "get_path (containers_path @ [Idx 0, Key ''image'']) m' =
           Some (YStr (takeWhile (\<lambda>c. c \<noteq> CHR '':'') s @ '':latest''))"
    by (simp add: clean_job_containers [OF clean])
  have "get_path (containers_path @ Idx (Suc i) # p) m1 =
        get_path (containers_path @ Idx (Suc i) # p) m"
    by (simp add: get_path_append [OF after] get_path_append [OF before])
  then show "get_path (containers_path @ Idx (Suc i) # p) m' =
           get_path (containers_path @ Idx (Suc i) # p) m"
    by (simp add: clean_job_containers [OF clean])
qed

text \<open>
  C8. Whatever string the image of a container is, the new image is the part before
  the first colon followed by \<open>:latest\<close> (the whole string when it has no colon). Doing
  it twice is doing it once, and \<open>repo:old\<close>, \<open>repo\<close> and \<open>repo:latest\<close> all become
  \<open>repo:latest\<close>. The transformation of a job does this to the image of the first
  container of \<open>spec.template.spec.containers\<close>, whatever variable is asked for, and
  leaves every other container as it was.
\<close>

theorem image_tag_latest:
  "set_image_latest render (YDict (fmupd ''image'' (YStr s) d)) =
     Inr (YDict (fmupd ''image'' (YStr (takeWhile (\<lambda>c. c \<noteq> CHR '':'') s @ '':latest'')) d))
   \<and> rbind (set_image_latest render (YDict (fmupd ''image'' (YStr s) d)))
         (set_image_latest render) =
       set_image_latest render (YDict (fmupd ''image'' (YStr s) d))
   \<and> set_image_latest render (YDict (fmupd ''image'' (YStr ''repo:old'') d)) =
       Inr (YDict (fmupd ''image'' (YStr ''repo:latest'') d))
   \<and> set_image_latest render (YDict (fmupd ''image'' (YStr ''repo'') d)) =
       Inr (YDict (fmupd ''image'' (YStr ''repo:latest'') d))
   \<and> set_image_latest render (YDict (fmupd ''image'' (YStr ''repo:latest'') d)) =
       Inr (YDict (fmupd ''image'' (YStr ''repo:latest'') d))
   \<and> (update_job_manifest render m n v = Inr m'
        \<and> get_path (containers_path @ [Idx 0, Key ''image'']) m = Some (YStr s) \<longrightarrow>
        get_path (containers_path @ [Idx 0, Key ''image'']) m' =
          Some (YStr (takeWhile (\<lambda>c. c \<noteq> CHR '':'') s @ '':latest''))
        \<and> (\<forall>i p. get_path (containers_path @ Idx (Suc i) # p) m' =
                  get_path (containers_path @ Idx (Suc i) # p) m))"
  using update_job_manifest_first_image [of render m n v m' s]
  by (simp add: set_image_latest_str rbind_def takeWhile_latest)

theorem image_tag_latest_witness:
  "set_image_latest (\<lambda>v. []) (YDict (fmupd ''image'' (YStr ''registry:5000/app:v2'') fmempty)) =
     Inr (YDict (fmupd ''image'' (YStr ''registry:latest'') fmempty))
   \<and> get_path (containers_path @ [Idx 0, Key ''image'']) sample_job = Some (YStr ''img:v1'')
   \<and> update_job_manifest (\<lambda>v. []) sample_job (Some ''X'') (Some ''3'') = Inr sample_job_updated
   \<and> get_path (containers_path @ [Idx 0, Key ''image'']) sample_job_updated =
       Some (YStr ''img:latest'')"
proof -
  have before: "get_path (containers_path @ [Idx 0, Key ''image'']) sample_job =
      Some (YStr ''img:v1'')"
    by code_simp
  note run = sample_job_upsert [of "\<lambda>v. []"]
  from image_tag_latest [of "\<lambda>v. []" "''registry:5000/app:v2''" fmempty]
  have a: "set_image_latest (\<lambda>v. []) (YDict (fmupd ''image'' (YStr ''registry:5000/app:v2'') fmempty)) =
     Inr (YDict (fmupd ''image'' (YStr ''registry:latest'') fmempty))"
    by simp
  from image_tag_latest [of "\<lambda>v. []" "''img:v1''" fmempty sample_job "Some ''X''" "Some ''3''"
      sample_job_updated] run before
  have b: "get_path (containers_path @ [Idx 0, Key ''image'']) sample_job_updated =
       Some (YStr ''img:latest'')"
    by simp
  from a before run b show ?thesis by blast
qed

end
